theory Spec2Isabelle
  imports Main "HOL-Library.Word"
begin

section \<open>The MongoDB target sink: \<open>MongoDbSink.process_batch\<close>\<close>

text \<open>
  A shallow embedding of \<^verbatim>\<open>src/target_mongodb/sinks.py\<close>. The sink has one method,
  \<^verbatim>\<open>process_batch\<close>, which builds a connection string from the configuration, opens
  the database, maps the records of the batch to write operations and submits them.

  The method is stateful: it writes to the logger, calls the MongoDB driver, mutates the
  records of the batch (\<^verbatim>\<open>record.pop("_id", None)\<close>) and finally replaces
  \<^verbatim>\<open>context["records"]\<close>. The model threads a state record through the method and
  returns it together with the exception that left the method, if any.

  The libraries the method calls are not part of the repository. The MongoDB driver
  (\<^verbatim>\<open>pymongo\<close>) is a parameter of the model; \<^verbatim>\<open>bson.objectid.ObjectId\<close> and
  \<^verbatim>\<open>urllib.parse.quote\<close> are modelled as their libraries document them.
\<close>

subsection \<open>Values\<close>

type_synonym byte = "8 word"

text \<open>
  Records arrive as parsed JSON, so a value is \<^verbatim>\<open>None\<close>, a boolean, a number, a
  string, a list or a dict; the loop of \<^verbatim>\<open>process_batch\<close> adds \<^verbatim>\<open>ObjectId\<close>
  instances. A dict is an association list in insertion order. Numbers are the integers
  (a JSON number with a fraction is not represented). A string is the list of the bytes
  of its UTF-8 encoding.
\<close>

datatype pyval =
    PNone
  | PBool bool
  | PInt int
  | PStr string
  | PList "pyval list"
  | PDict "(string \<times> pyval) list"
  | PObjectId "byte list"

type_synonym pydict = "(string \<times> pyval) list"

text \<open>The exceptions that can travel through \<^verbatim>\<open>process_batch\<close>.\<close>

datatype exn =
    KeyError string
      \<comment> \<open>\<^verbatim>\<open>config[k]\<close> on a missing key\<close>
  | TypeError pyval
      \<comment> \<open>\<^verbatim>\<open>ObjectId(v)\<close>: \<^verbatim>\<open>v\<close> is not bytes, str or ObjectId; also the driver's own\<close>
  | InvalidId pyval
      \<comment> \<open>\<^verbatim>\<open>ObjectId(s)\<close>: the string is not a 24-character hex string\<close>
  | BulkWriteError "(nat \<times> int) list"
      \<comment> \<open>the driver: per-operation write errors, as (index in the request, error code)\<close>
  | ConnectionFailure string
      \<comment> \<open>the driver: the server cannot be reached\<close>
  | DriverError string
      \<comment> \<open>any other exception of the driver\<close>

text \<open>\<^verbatim>\<open>bool(v)\<close>, as \<^verbatim>\<open>if not connection_string\<close> and \<^verbatim>\<open>if config["srv"]\<close> use it.\<close>

fun truthy :: "pyval \<Rightarrow> bool" where
  "truthy PNone = False"
| "truthy (PBool b) = b"
| "truthy (PInt i) = (i \<noteq> 0)"
| "truthy (PStr s) = (s \<noteq> [])"
| "truthy (PList xs) = (xs \<noteq> [])"
| "truthy (PDict d) = (d \<noteq> [])"
| "truthy (PObjectId b) = True"

subsection \<open>Dict operations\<close>

text \<open>
  The keys of a Python dict are distinct. On an association list with distinct keys the
  operations below are those of the dict; \<open>map_of\<close> reads the binding of a key.
\<close>

text \<open>\<^verbatim>\<open>d.get(k, default)\<close>; \<^verbatim>\<open>d.get(k)\<close> is \<^verbatim>\<open>d.get(k, None)\<close>.\<close>

definition dict_get :: "pydict \<Rightarrow> string \<Rightarrow> pyval \<Rightarrow> pyval" where
  "dict_get d k dflt = (case map_of d k of None \<Rightarrow> dflt | Some v \<Rightarrow> v)"

text \<open>\<^verbatim>\<open>d[k]\<close>, which raises \<^verbatim>\<open>KeyError\<close> on a missing key.\<close>

definition dict_item :: "pydict \<Rightarrow> string \<Rightarrow> exn + pyval" where
  "dict_item d k = (case map_of d k of None \<Rightarrow> Inl (KeyError k) | Some v \<Rightarrow> Inr v)"

text \<open>\<^verbatim>\<open>k in d\<close>.\<close>

definition dict_contains :: "pydict \<Rightarrow> string \<Rightarrow> bool" where
  "dict_contains d k = (map_of d k \<noteq> None)"

text \<open>\<^verbatim>\<open>d.pop(k, None)\<close>: the dict without the key; no error when the key is missing.\<close>

definition dict_pop :: "pydict \<Rightarrow> string \<Rightarrow> pydict" where
  "dict_pop d k = filter (\<lambda>kv. fst kv \<noteq> k) d"

subsection \<open>\<open>urllib.parse.quote\<close>\<close>

text \<open>
  \<^verbatim>\<open>quote(string)\<close> with the default \<^verbatim>\<open>safe='/'\<close>: the string is encoded as UTF-8 and
  every byte that is not a letter, a digit, one of \<^verbatim>\<open>_.-~\<close> or \<^verbatim>\<open>/\<close> is replaced by
  \<^verbatim>\<open>%XX\<close>, its value in two upper-case hexadecimal digits.
\<close>

definition always_safe :: "char \<Rightarrow> bool" where
  "always_safe c =
     (let n = (of_char c :: nat) in
        (65 \<le> n \<and> n \<le> 90) \<or> (97 \<le> n \<and> n \<le> 122) \<or> (48 \<le> n \<and> n \<le> 57)
        \<or> c = CHR ''_'' \<or> c = CHR ''.'' \<or> c = CHR ''-'' \<or> c = CHR ''~'')"

definition hex_upper :: "nat \<Rightarrow> char" where
  "hex_upper n = ''0123456789ABCDEF'' ! (n mod 16)"

definition quoter :: "char \<Rightarrow> string" where
  "quoter c =
     (if always_safe c \<or> c = CHR ''/'' then [c]
      else [CHR ''%'', hex_upper (of_char c div 16), hex_upper (of_char c mod 16)])"

definition quote :: "string \<Rightarrow> string" where
  "quote s = concat (map quoter s)"

subsection \<open>\<open>bson.objectid.ObjectId\<close>\<close>

text \<open>
  The constructor of \<^verbatim>\<open>bson\<close>:
  \<^verbatim>\<open>
  def __init__(self, oid=None):
      if oid is None:
          self.__generate()
      elif isinstance(oid, bytes) and len(oid) == 12:
          self.__id = oid
      else:
          self.__validate(oid)

  def __validate(self, oid):
      if isinstance(oid, ObjectId):
          self.__id = oid.binary
      elif isinstance(oid, str):
          if len(oid) == 24:
              try:
                  self.__id = bytes.fromhex(oid)
              except (TypeError, ValueError):
                  _raise_invalid_id(oid)
          else:
              _raise_invalid_id(oid)
      else:
          raise TypeError(...)
  \<close>
  A value of the model is never \<^verbatim>\<open>bytes\<close>, so that branch has no case here.
  \<^verbatim>\<open>bytes.fromhex\<close> skips ASCII whitespace before each pair of hexadecimal digits.
\<close>

definition isspace :: "char \<Rightarrow> bool" where
  "isspace c = (let n = (of_char c :: nat) in (9 \<le> n \<and> n \<le> 13) \<or> n = 32)"

definition hex_value :: "char \<Rightarrow> nat option" where
  "hex_value c =
     (let n = (of_char c :: nat) in
        if 48 \<le> n \<and> n \<le> 57 then Some (n - 48)
        else if 97 \<le> n \<and> n \<le> 102 then Some (n - 87)
        else if 65 \<le> n \<and> n \<le> 70 then Some (n - 55)
        else None)"

fun fromhex :: "string \<Rightarrow> byte list option" where
  "fromhex [] = Some []"
| "fromhex [c] = (if isspace c then Some [] else None)"
| "fromhex (c # d # ds) =
     (if isspace c then fromhex (d # ds)
      else (case hex_value c of
              None \<Rightarrow> None
            | Some t \<Rightarrow>
               (case hex_value d of
                  None \<Rightarrow> None
                | Some b \<Rightarrow> map_option ((#) (of_nat (16 * t + b))) (fromhex ds))))"

text \<open>
  \<^verbatim>\<open>ObjectId(v)\<close>. Generating an identifier reads the clock, a random value and a
  counter; the model takes the sequence of generated identifiers as the parameter
  \<open>gen\<close> and counts how many have been taken. The result is the exception raised, or
  the new object and the new count.
\<close>

fun ObjectId :: "(nat \<Rightarrow> byte list) \<Rightarrow> nat \<Rightarrow> pyval \<Rightarrow> exn + (pyval \<times> nat)" where
  "ObjectId gen n PNone = Inr (PObjectId (gen n), Suc n)"
| "ObjectId gen n (PObjectId b) = Inr (PObjectId b, n)"
| "ObjectId gen n (PStr s) =
     (if length s = 24 then
        (case fromhex s of
           None \<Rightarrow> Inl (InvalidId (PStr s))
         | Some b \<Rightarrow> Inr (PObjectId b, n))
      else Inl (InvalidId (PStr s)))"
| "ObjectId gen n v = Inl (TypeError v)"

subsection \<open>The sink, the logger and the driver\<close>

text \<open>The attributes of the sink that \<^verbatim>\<open>process_batch\<close> reads.\<close>

record sink =
  config :: pydict
  stream_name :: string
  key_properties :: "string list"

text \<open>
  A log line is the level of the logger call and the message. A message is the
  f-string of the source, kept as its template with the values it interpolates:
  \<^item> \<^verbatim>\<open>f"Malformed id: {find_id}. Skipping this record. Error: {e}"\<close>
  \<^item> \<^verbatim>\<open>f"Bulk write completed: {result.modified_count} updated, {result.upserted_count} upserted."\<close>
  \<^item> \<^verbatim>\<open>f"Uploaded {len(records)} records into {collection_name}"\<close>
\<close>

datatype level = WARN | INFO

datatype message =
    Malformed_id pyval exn
  | Bulk_write_completed nat nat
  | Uploaded nat string

type_synonym log_line = "level \<times> message"

text \<open>
  The connection string, likewise: the configured one, or one of the three f-strings
  with the configuration values it interpolates (in the order user, password, host,
  port, database name, authentication database).
\<close>

datatype uri =
    Given pyval
  | Mongodb_srv pyval pyval pyval pyval pyval
  | Mongodb_port pyval pyval pyval pyval pyval pyval
  | Mongodb pyval pyval pyval pyval pyval

text \<open>
  \<^verbatim>\<open>pymongo.UpdateOne(filter, update, upsert=...)\<close>, the only operation the sink builds,
  and the attributes of \<^verbatim>\<open>BulkWriteResult\<close>.
\<close>

datatype write_op = UpdateOne pydict pydict bool

record bulk_write_result =
  matched_count :: nat
  modified_count :: nat
  upserted_count :: nat

text \<open>The write calls made on a collection of the database, with their arguments.\<close>

datatype backend_call =
    Bulk_write string "write_op list" bool
      \<comment> \<open>\<^verbatim>\<open>db[name].bulk_write(operations, ordered=...)\<close>\<close>
  | Insert_many string "pydict list"
      \<comment> \<open>\<^verbatim>\<open>db[name].insert_many(documents)\<close>\<close>

text \<open>
  The driver and the server behind it are a parameter: \<open>'c\<close> is a client, \<open>'h\<close> a
  database handle and \<open>'w\<close> the state of the server. Every call may raise; a write call
  also returns the new state of the server, whether it raises or not (an unordered bulk
  write that reports errors has still applied its other operations). \<^verbatim>\<open>insert_many\<close>
  changes the documents it is handed in place (it gives a document without an \<^verbatim>\<open>_id\<close>
  a generated one), also when it raises afterwards, so it returns the documents as it
  left them as well. It changes the dicts, not the list: the list keeps its length.
  \<^item> \<open>MongoClient uri ssl\<close> is
    \<^verbatim>\<open>pymongo.MongoClient(uri, connectTimeoutMS=2000, retryWrites=True, ssl=ssl)\<close>;
  \<^item> \<open>getitem client name\<close> is \<^verbatim>\<open>client[name]\<close>;
  \<^item> \<open>bulk_write db name ops ordered\<close> is \<^verbatim>\<open>db[name].bulk_write(ops, ordered=ordered)\<close>;
  \<^item> \<open>insert_many db name docs\<close> is \<^verbatim>\<open>db[name].insert_many(docs)\<close>: the exception if
    it raises, the documents as the call left them, and the server;
  \<^item> \<open>generate\<close> is the sequence of identifiers that the \<^verbatim>\<open>ObjectId(find_id)\<close> of the
    method generates.
\<close>

record ('c, 'h, 'w) driver =
  MongoClient :: "uri \<Rightarrow> pyval \<Rightarrow> exn + 'c"
  getitem :: "'c \<Rightarrow> pyval \<Rightarrow> exn + 'h"
  bulk_write :: "'h \<Rightarrow> string \<Rightarrow> write_op list \<Rightarrow> bool \<Rightarrow> 'w \<Rightarrow> (exn + bulk_write_result) \<times> 'w"
  insert_many :: "'h \<Rightarrow> string \<Rightarrow> pydict list \<Rightarrow> 'w \<Rightarrow> exn option \<times> pydict list \<times> 'w"
  generate :: "nat \<Rightarrow> byte list"

text \<open>
  The state \<^verbatim>\<open>process_batch\<close> works on: \<^verbatim>\<open>context["records"]\<close>, the lines logged so
  far, the write calls made so far, the server, and the number of identifiers that the
  method's own calls of \<^verbatim>\<open>ObjectId\<close> have generated.
\<close>

record 'w state =
  records :: "pydict list"
  logger :: "log_line list"
  calls :: "backend_call list"
  world :: 'w
  generated :: nat

subsection \<open>The connection string\<close>

definition and_then :: "exn + 'a \<Rightarrow> ('a \<Rightarrow> exn + 'b) \<Rightarrow> exn + 'b" where
  "and_then m f = (case m of Inl e \<Rightarrow> Inl e | Inr x \<Rightarrow> f x)"

text \<open>
  Lines 21 to 42. \<^verbatim>\<open>config[k]\<close> raises \<^verbatim>\<open>KeyError\<close> on a missing key, and the fields of
  an f-string are evaluated from left to right.
\<close>

definition db_name_of :: "pydict \<Rightarrow> pyval" where
  "db_name_of cfg = dict_get cfg ''db_name'' (dict_get cfg ''database'' PNone)"

definition connection_string_of :: "pydict \<Rightarrow> exn + uri" where
  "connection_string_of cfg =
     (let connection_string = dict_get cfg ''connection_string'' PNone;
          db_name = db_name_of cfg
      in if \<not> truthy connection_string then
           and_then (dict_item cfg ''srv'') (\<lambda>srv.
             if truthy srv then
               and_then (dict_item cfg ''user'') (\<lambda>user.
               and_then (dict_item cfg ''password'') (\<lambda>password.
               and_then (dict_item cfg ''host'') (\<lambda>host.
               and_then (dict_item cfg ''auth_database'') (\<lambda>auth.
                 Inr (Mongodb_srv user password host db_name auth)))))
             else if dict_contains cfg ''port'' then
               and_then (dict_item cfg ''user'') (\<lambda>user.
               and_then (dict_item cfg ''password'') (\<lambda>password.
               and_then (dict_item cfg ''host'') (\<lambda>host.
               and_then (dict_item cfg ''port'') (\<lambda>port.
               and_then (dict_item cfg ''auth_database'') (\<lambda>auth.
                 Inr (Mongodb_port user password host port db_name auth))))))
             else
               and_then (dict_item cfg ''user'') (\<lambda>user.
               and_then (dict_item cfg ''password'') (\<lambda>password.
               and_then (dict_item cfg ''host'') (\<lambda>host.
               and_then (dict_item cfg ''auth_database'') (\<lambda>auth.
                 Inr (Mongodb user password host db_name auth))))))
         else Inr (Given connection_string))"

text \<open>
  Lines 21 to 50: the connection string, the client and the database. The result is the
  database handle, or the exception that leaves \<^verbatim>\<open>process_batch\<close>.
\<close>

definition open_database :: "('c, 'h, 'w) driver \<Rightarrow> pydict \<Rightarrow> exn + 'h" where
  "open_database drv cfg =
     and_then (connection_string_of cfg) (\<lambda>connection_string.
     and_then (MongoClient drv connection_string (dict_get cfg ''ssl'' (PBool False))) (\<lambda>client.
       getitem drv client (db_name_of cfg)))"

subsection \<open>The loop over the records\<close>

text \<open>
  The variables of the loop of lines 58 to 78: the operations built so far, the records
  already visited (as the loop left them: \<^verbatim>\<open>record.pop("_id", None)\<close> changes the record
  in place), the log, and the number of identifiers generated.
\<close>

record loop =
  bulk_operations :: "write_op list"
  seen :: "pydict list"
  logged :: "log_line list"
  taken :: nat

text \<open>The body of the loop, for one record.\<close>

definition loop_body :: "(nat \<Rightarrow> byte list) \<Rightarrow> string \<Rightarrow> pydict \<Rightarrow> loop \<Rightarrow> loop" where
  "loop_body gen primary_id record l =
     (let find_id = dict_get record primary_id PNone in
      if primary_id = ''_id'' then
        (case ObjectId gen (taken l) find_id of
           Inl e \<Rightarrow>
             l\<lparr>logged := logged l @ [(WARN, Malformed_id find_id e)],
               seen := seen l @ [record]\<rparr>
         | Inr (oid, n) \<Rightarrow>
             (let popped = dict_pop record ''_id'' in
              l\<lparr>bulk_operations :=
                  bulk_operations l @ [UpdateOne [(primary_id, oid)] [(''$set'', PDict popped)] True],
                seen := seen l @ [popped],
                taken := n\<rparr>))
      else
        l\<lparr>bulk_operations :=
            bulk_operations l @ [UpdateOne [(primary_id, find_id)] [(''$set'', PDict record)] True],
          seen := seen l @ [record]\<rparr>)"

fun for_records :: "(nat \<Rightarrow> byte list) \<Rightarrow> string \<Rightarrow> pydict list \<Rightarrow> loop \<Rightarrow> loop" where
  "for_records gen primary_id [] l = l"
| "for_records gen primary_id (record # rest) l =
     for_records gen primary_id rest (loop_body gen primary_id record l)"

text \<open>The state of the loop before its first iteration (line 56).\<close>

definition loop_start :: "'w state \<Rightarrow> loop" where
  "loop_start st = \<lparr>bulk_operations = [], seen = [], logged = logger st, taken = generated st\<rparr>"

subsection \<open>\<open>process_batch\<close>\<close>

text \<open>Lines 90 to 93: the summary line, then \<^verbatim>\<open>context["records"] = []\<close>.\<close>

definition finish :: "nat \<Rightarrow> string \<Rightarrow> 'w state \<Rightarrow> exn option \<times> 'w state" where
  "finish n collection_name st =
     (None, st\<lparr>logger := logger st @ [(INFO, Uploaded n collection_name)], records := []\<rparr>)"

text \<open>
  The method. The result is the exception that leaves it (\<open>None\<close> when it returns) and
  the state it leaves behind.
\<close>

definition process_batch ::
  "('c, 'h, 'w) driver \<Rightarrow> sink \<Rightarrow> 'w state \<Rightarrow> exn option \<times> 'w state" where
  "process_batch drv self st =
     (case open_database drv (config self) of
        Inl e \<Rightarrow> (Some e, st)
      | Inr db \<Rightarrow>
         (let collection_name = quote (stream_name self);
              n = length (records st)
          in if length (key_properties self) > 0 then
               (let primary_id = hd (key_properties self);
                    l = for_records (generate drv) primary_id (records st) (loop_start st);
                    st1 = st\<lparr>records := seen l, logger := logged l, generated := taken l\<rparr>
                in if bulk_operations l \<noteq> [] then
                     (case bulk_write drv db collection_name (bulk_operations l) False (world st1) of
                        (Inl e, w) \<Rightarrow>
                          (Some e,
                           st1\<lparr>calls := calls st1 @ [Bulk_write collection_name (bulk_operations l) False],
                               world := w\<rparr>)
                      | (Inr result, w) \<Rightarrow>
                          finish n collection_name
                            (st1\<lparr>calls := calls st1 @ [Bulk_write collection_name (bulk_operations l) False],
                                 world := w,
                                 logger := logger st1 @
                                   [(INFO, Bulk_write_completed (modified_count result) (upserted_count result))]\<rparr>))
                   else finish n collection_name st1)
             else
               (case insert_many drv db collection_name (records st) (world st) of
                  (Some e, docs, w) \<Rightarrow>
                    (Some e,
                     st\<lparr>records := docs,
                        calls := calls st @ [Insert_many collection_name (records st)],
                        world := w\<rparr>)
                | (None, docs, w) \<Rightarrow>
                    finish n collection_name
                      (st\<lparr>records := docs,
                         calls := calls st @ [Insert_many collection_name (records st)],
                         world := w\<rparr>))))"

subsection \<open>Reading the log and the batch\<close>

text \<open>
  Whether \<^verbatim>\<open>ObjectId(v)\<close> raises does not depend on the identifiers generated:
  \<open>malformed v\<close> is the exception it raises, if it raises.
\<close>

definition malformed :: "pyval \<Rightarrow> exn option" where
  "malformed v = (case ObjectId (\<lambda>n. []) 0 v of Inl e \<Rightarrow> Some e | Inr p \<Rightarrow> None)"

text \<open>The warnings that the loop logs for a batch, in the order of the records.\<close>

fun skip_warnings :: "string \<Rightarrow> pydict list \<Rightarrow> log_line list" where
  "skip_warnings primary_id [] = []"
| "skip_warnings primary_id (record # rest) =
     (if primary_id = ''_id'' then
        (case malformed (dict_get record ''_id'' PNone) of
           Some e \<Rightarrow> [(WARN, Malformed_id (dict_get record ''_id'' PNone) e)]
         | None \<Rightarrow> [])
      else []) @ skip_warnings primary_id rest"

text \<open>The updated and upserted counts that the lines of a log report, summed.\<close>

fun updated_in :: "message \<Rightarrow> nat" where
  "updated_in (Bulk_write_completed m u) = m"
| "updated_in (Malformed_id v e) = 0"
| "updated_in (Uploaded n c) = 0"

fun upserted_in :: "message \<Rightarrow> nat" where
  "upserted_in (Bulk_write_completed m u) = u"
| "upserted_in (Malformed_id v e) = 0"
| "upserted_in (Uploaded n c) = 0"

definition reported_updated :: "log_line list \<Rightarrow> nat" where
  "reported_updated ls = sum_list (map (\<lambda>x. updated_in (snd x)) ls)"

definition reported_upserted :: "log_line list \<Rightarrow> nat" where
  "reported_upserted ls = sum_list (map (\<lambda>x. upserted_in (snd x)) ls)"

subsection \<open>The server's side of an upsert\<close>

text \<open>
  MongoDB documents an update with \<^verbatim>\<open>upsert=True\<close> so: when a stored document matches
  the filter it is updated, otherwise a new document is created. A filter
  \<^verbatim>\<open>{field: value}\<close> on a scalar value matches a document whose field has that value;
  the value \<^verbatim>\<open>null\<close> also matches a document without the field.
\<close>

definition matches :: "pydict \<Rightarrow> pydict \<Rightarrow> bool" where
  "matches flt doc = list_all (\<lambda>kv. dict_get doc (fst kv) PNone = snd kv) flt"

datatype outcome = Updates_existing | Creates_new | No_effect

fun outcome_of :: "pydict list \<Rightarrow> write_op \<Rightarrow> outcome" where
  "outcome_of docs (UpdateOne flt upd upsert) =
     (if list_ex (matches flt) docs then Updates_existing
      else if upsert then Creates_new else No_effect)"

text \<open>
  The rest of the rule, for the example server below: \<^verbatim>\<open>$set\<close> assigns the fields to
  the first document that matches, and an upsert that matches none creates the document
  of the filter's fields with the fields of \<^verbatim>\<open>$set\<close> assigned. The counts are those of
  \<^verbatim>\<open>BulkWriteResult\<close>: documents matched, documents changed, documents created.
\<close>

fun set_field :: "pydict \<Rightarrow> string \<Rightarrow> pyval \<Rightarrow> pydict" where
  "set_field [] k v = [(k, v)]"
| "set_field (kv # d) k v = (if fst kv = k then (k, v) # d else kv # set_field d k v)"

definition set_fields :: "pydict \<Rightarrow> pydict \<Rightarrow> pydict" where
  "set_fields doc assigned = foldl (\<lambda>d kv. set_field d (fst kv) (snd kv)) doc assigned"

definition dollar_set :: "pydict \<Rightarrow> pydict" where
  "dollar_set upd = (case map_of upd ''$set'' of Some (PDict assigned) \<Rightarrow> assigned | _ \<Rightarrow> [])"

fun update_first :: "pydict \<Rightarrow> pydict \<Rightarrow> pydict list \<Rightarrow> pydict list" where
  "update_first flt assigned [] = []"
| "update_first flt assigned (doc # docs) =
     (if matches flt doc then set_fields doc assigned # docs
      else doc # update_first flt assigned docs)"

fun apply_op :: "pydict list \<Rightarrow> write_op \<Rightarrow> pydict list" where
  "apply_op docs (UpdateOne flt upd upsert) =
     (case outcome_of docs (UpdateOne flt upd upsert) of
        Updates_existing \<Rightarrow> update_first flt (dollar_set upd) docs
      | Creates_new \<Rightarrow> docs @ [set_fields flt (dollar_set upd)]
      | No_effect \<Rightarrow> docs)"

fun run_bulk :: "write_op list \<Rightarrow> pydict list \<Rightarrow> bulk_write_result \<times> pydict list" where
  "run_bulk [] docs = (\<lparr>matched_count = 0, modified_count = 0, upserted_count = 0\<rparr>, docs)"
| "run_bulk (op # ops) docs =
     (let changed = apply_op docs op;
          rest = run_bulk ops changed
      in (\<lparr>matched_count = matched_count (fst rest)
            + (if outcome_of docs op = Updates_existing then 1 else 0),
          modified_count = modified_count (fst rest)
            + (if outcome_of docs op = Updates_existing \<and> changed \<noteq> docs then 1 else 0),
          upserted_count = upserted_count (fst rest)
            + (if outcome_of docs op = Creates_new then 1 else 0)\<rparr>,
          snd rest))"

subsection \<open>Example inputs\<close>

text \<open>
  What pymongo's \<^verbatim>\<open>insert_many\<close> does to the documents before it sends them: a
  document without an \<^verbatim>\<open>_id\<close> gets a generated one, as its last field.
\<close>

fun with_ids :: "(nat \<Rightarrow> byte list) \<Rightarrow> nat \<Rightarrow> pydict list \<Rightarrow> pydict list" where
  "with_ids gen n [] = []"
| "with_ids gen n (doc # docs) =
     (if dict_contains doc ''_id'' then doc # with_ids gen n docs
      else (doc @ [(''_id'', PObjectId (gen n))]) # with_ids gen (Suc n) docs)"

text \<open>
  A driver whose server accepts every request: the state of the server is the number of
  documents it was sent, every operation of a bulk write is reported as upserted, and
  \<^verbatim>\<open>insert_many\<close> rejects an empty list with \<^verbatim>\<open>TypeError\<close>, as pymongo does before it
  sends anything.
\<close>

definition example_gen :: "nat \<Rightarrow> byte list" where
  "example_gen n = [0, 0, 0, 0, 0, 0, 0, 0, 0, 0, 0, of_nat n]"

definition accepting_driver :: "(unit, unit, nat) driver" where
  "accepting_driver =
     \<lparr>MongoClient = (\<lambda>u ssl. Inr ()),
      getitem = (\<lambda>c name. Inr ()),
      bulk_write = (\<lambda>h name ops ordered w.
        (Inr \<lparr>matched_count = 0, modified_count = 0, upserted_count = length ops\<rparr>,
         w + length ops)),
      insert_many = (\<lambda>h name docs w.
        (if docs = [] then Some (TypeError (PList [])) else None,
         with_ids example_gen 128 docs, w + length docs)),
      generate = example_gen\<rparr>"

text \<open>
  A driver whose server reports a duplicate key (code 11000) for the first operation of
  every bulk write, which pymongo raises as \<^verbatim>\<open>BulkWriteError\<close> once the other
  operations of the unordered request have run.
\<close>

definition conflicting_driver :: "(unit, unit, nat) driver" where
  "conflicting_driver =
     accepting_driver\<lparr>bulk_write := (\<lambda>h name ops ordered w.
        (Inl (BulkWriteError [(0, 11000)]), w + (length ops - 1)))\<rparr>"

text \<open>
  A driver whose server holds a list of documents and applies the operations of a bulk
  write to it one after the other; and the same driver with a generator whose
  identifiers are all the one of the document stored below.
\<close>

definition stored_driver :: "(unit, unit, pydict list) driver" where
  "stored_driver =
     \<lparr>MongoClient = (\<lambda>u ssl. Inr ()),
      getitem = (\<lambda>c name. Inr ()),
      bulk_write = (\<lambda>h name ops ordered docs.
        (Inr (fst (run_bulk ops docs)), snd (run_bulk ops docs))),
      insert_many = (\<lambda>h name new docs.
        (if new = [] then Some (TypeError (PList [])) else None,
         with_ids example_gen 128 new, docs @ with_ids example_gen 128 new)),
      generate = example_gen\<rparr>"

definition colliding_driver :: "(unit, unit, pydict list) driver" where
  "colliding_driver =
     stored_driver\<lparr>generate :=
       (\<lambda>n. [80, 127, 31, 119, 188, 248, 108, 215, 153, 67, 144, 17])\<rparr>"

definition example_config :: pydict where
  "example_config =
     [(''user'', PStr ''u''), (''password'', PStr ''p''), (''host'', PStr ''h''),
      (''port'', PInt 27017), (''database'', PStr ''d''), (''auth_database'', PStr ''admin''),
      (''srv'', PBool False)]"

definition id_sink :: sink where
  "id_sink = \<lparr>config = example_config, stream_name = ''tap users'', key_properties = [''_id'']\<rparr>"

definition sku_sink :: sink where
  "sku_sink = \<lparr>config = example_config, stream_name = ''tap users'', key_properties = [''sku'']\<rparr>"

definition plain_sink :: sink where
  "plain_sink = \<lparr>config = example_config, stream_name = ''tap users'', key_properties = []\<rparr>"

definition batch_of :: "pydict list \<Rightarrow> nat state" where
  "batch_of rs = \<lparr>records = rs, logger = [], calls = [], world = 0, generated = 0\<rparr>"

definition good_record :: pydict where
  "good_record = [(''_id'', PStr ''507f1f77bcf86cd799439011''), (''name'', PStr ''a'')]"

definition bad_record :: pydict where
  "bad_record = [(''_id'', PStr ''bad''), (''name'', PStr ''b'')]"

definition anonymous_record :: pydict where
  "anonymous_record = [(''name'', PStr ''c'')]"

definition null_id_record :: pydict where
  "null_id_record = [(''_id'', PNone), (''name'', PStr ''d'')]"

definition stored_documents :: "pydict list" where
  "stored_documents =
     [[(''_id'', PObjectId [80, 127, 31, 119, 188, 248, 108, 215, 153, 67, 144, 17]),
       (''name'', PStr ''a'')]]"

definition stored_batch :: "pydict list \<Rightarrow> pydict list state" where
  "stored_batch rs =
     \<lparr>records = rs, logger = [], calls = [], world = stored_documents, generated = 0\<rparr>"

section \<open>Properties\<close>

subsection \<open>The loop\<close>

lemma for_records_append:
  "for_records g k (xs @ ys) l = for_records g k ys (for_records g k xs l)"
  by (induction xs arbitrary: l) auto

lemma ObjectId_raises_iff: "ObjectId g n v = Inl e \<longleftrightarrow> malformed v = Some e"
  by (cases v) (auto simp: malformed_def split: if_splits option.splits)

text \<open>The values on which \<^verbatim>\<open>ObjectId\<close> raises, and what it raises.\<close>

lemma ObjectId_raises_on:
  "(ObjectId g m v = Inl e) =
     (case v of
        PStr s \<Rightarrow> (length s \<noteq> 24 \<or> fromhex s = None) \<and> e = InvalidId (PStr s)
      | PNone \<Rightarrow> False
      | PObjectId b \<Rightarrow> False
      | _ \<Rightarrow> e = TypeError v)"
  by (cases v) (auto split: option.splits)

lemma ObjectId_returns: "ObjectId g n v = Inr p \<Longrightarrow> malformed v = None"
  by (cases v) (auto simp: malformed_def split: if_splits option.splits)

lemma skip_warnings_append:
  "skip_warnings k (xs @ ys) = skip_warnings k xs @ skip_warnings k ys"
  by (induction xs) auto

lemma skip_warnings_Cons:
  "skip_warnings k (r # rs) = skip_warnings k [r] @ skip_warnings k rs"
  using skip_warnings_append [of k "[r]" rs] by simp

lemma logged_loop_body: "logged (loop_body g k r l) = logged l @ skip_warnings k [r]"
  by (auto simp: loop_body_def Let_def ObjectId_raises_iff
      dest: ObjectId_returns split: sum.splits option.splits)

lemma logged_for_records: "logged (for_records g k rs l) = logged l @ skip_warnings k rs"
proof (induction rs arbitrary: l)
  case Nil
  then show ?case by simp
next
  case (Cons r rs)
  then show ?case
    using skip_warnings_Cons [of k r rs] by (simp add: logged_loop_body del: skip_warnings.simps)
qed

lemma count_loop_body:
  "length (bulk_operations (loop_body g k r l)) + length (skip_warnings k [r])
     = Suc (length (bulk_operations l))"
  by (auto simp: loop_body_def Let_def ObjectId_raises_iff
      dest: ObjectId_returns split: sum.splits option.splits)

lemma count_for_records:
  "length (bulk_operations (for_records g k rs l)) + length (skip_warnings k rs)
     = length (bulk_operations l) + length rs"
proof (induction rs arbitrary: l)
  case Nil
  then show ?case by simp
next
  case (Cons r rs)
  show ?case
    using Cons.IH [of "loop_body g k r l"] count_loop_body [of g k r l]
      skip_warnings_Cons [of k r rs]
    by (simp del: skip_warnings.simps)
qed

lemma loop_body_cong:
  assumes "bulk_operations l' = bulk_operations l" and "taken l' = taken l"
  shows "bulk_operations (loop_body g k r l') = bulk_operations (loop_body g k r l)
       \<and> taken (loop_body g k r l') = taken (loop_body g k r l)"
  using assms by (auto simp: loop_body_def Let_def split: sum.splits)

lemma for_records_cong:
  assumes "bulk_operations l' = bulk_operations l" and "taken l' = taken l"
  shows "bulk_operations (for_records g k rs l') = bulk_operations (for_records g k rs l)
       \<and> taken (for_records g k rs l') = taken (for_records g k rs l)"
  using assms
proof (induction rs arbitrary: l l')
  case Nil
  then show ?case by simp
next
  case (Cons r rs)
  show ?case
    using Cons.IH [of "loop_body g k r l'" "loop_body g k r l"]
      loop_body_cong [OF Cons.prems, of g k r]
    by simp
qed

lemma loop_body_malformed:
  assumes "ObjectId g n (dict_get r ''_id'' PNone) = Inl e"
  shows "loop_body g ''_id'' r l =
     l\<lparr>logged := logged l @ [(WARN, Malformed_id (dict_get r ''_id'' PNone) e)],
       seen := seen l @ [r]\<rparr>"
proof -
  have "ObjectId g (taken l) (dict_get r ''_id'' PNone) = Inl e"
    using assms by (simp add: ObjectId_raises_iff)
  then show ?thesis by (simp add: loop_body_def)
qed

subsection \<open>The method, case by case\<close>

lemma loop_start_records [simp]: "loop_start (st\<lparr>records := rs\<rparr>) = loop_start st"
  by (simp add: loop_start_def)

lemma process_batch_keyed:
  assumes "open_database drv (config self) = Inr db"
      and "key_properties self = k # ks"
      and "l = for_records (generate drv) k (records st) (loop_start st)"
      and "c = quote (stream_name self)"
  shows "process_batch drv self st =
    (if bulk_operations l = [] then
       (None, st\<lparr>records := [], generated := taken l,
                logger := logged l @ [(INFO, Uploaded (length (records st)) c)]\<rparr>)
     else
       (case bulk_write drv db c (bulk_operations l) False (world st) of
          (Inl e, w) \<Rightarrow>
            (Some e, st\<lparr>records := seen l, generated := taken l, logger := logged l,
                        calls := calls st @ [Bulk_write c (bulk_operations l) False],
                        world := w\<rparr>)
        | (Inr result, w) \<Rightarrow>
            (None, st\<lparr>records := [], generated := taken l,
                      logger := logged l @
                        [(INFO, Bulk_write_completed (modified_count result) (upserted_count result)),
                         (INFO, Uploaded (length (records st)) c)],
                      calls := calls st @ [Bulk_write c (bulk_operations l) False],
                      world := w\<rparr>)))"
  using assms
  by (simp add: process_batch_def finish_def Let_def split: prod.splits sum.splits)

lemma keyed_outcome:
  assumes "open_database drv (config self) = Inr db"
      and "key_properties self = k # ks"
      and "l = for_records (generate drv) k (records st) (loop_start st)"
      and "c = quote (stream_name self)"
  shows "fst (process_batch drv self st) =
           (if bulk_operations l = [] then None
            else (case fst (bulk_write drv db c (bulk_operations l) False (world st)) of
                    Inl e \<Rightarrow> Some e | Inr result \<Rightarrow> None))"
    and "calls (snd (process_batch drv self st)) =
           calls st @ (if bulk_operations l = [] then [] else [Bulk_write c (bulk_operations l) False])"
    and "world (snd (process_batch drv self st)) =
           (if bulk_operations l = [] then world st
            else snd (bulk_write drv db c (bulk_operations l) False (world st)))"
    and "generated (snd (process_batch drv self st)) = taken l"
  unfolding process_batch_keyed [OF assms]
  by (simp_all split: prod.splits sum.splits)

lemma process_batch_plain:
  assumes "open_database drv (config self) = Inr db"
      and "key_properties self = []"
      and "c = quote (stream_name self)"
  shows "process_batch drv self st =
    (case insert_many drv db c (records st) (world st) of
       (Some e, docs, w) \<Rightarrow>
         (Some e, st\<lparr>records := docs, calls := calls st @ [Insert_many c (records st)],
                     world := w\<rparr>)
     | (None, docs, w) \<Rightarrow>
         (None, st\<lparr>records := [],
                   logger := logger st @ [(INFO, Uploaded (length (records st)) c)],
                   calls := calls st @ [Insert_many c (records st)], world := w\<rparr>))"
  using assms
  by (simp add: process_batch_def finish_def Let_def split: prod.splits option.splits)

lemma process_batch_unopened:
  assumes "open_database drv (config self) = Inl e"
  shows "process_batch drv self st = (Some e, st)"
  using assms by (simp add: process_batch_def)

lemma bulk_operations_frame:
  "bulk_operations (for_records g k rs l) =
     bulk_operations l @ bulk_operations (for_records g k rs (l\<lparr>bulk_operations := []\<rparr>))"
proof (induction rs arbitrary: l)
  case Nil
  then show ?case by simp
next
  case (Cons r rs)
  have step: "bulk_operations (loop_body g k r l) =
      bulk_operations l @ bulk_operations (loop_body g k r (l\<lparr>bulk_operations := []\<rparr>))"
    by (auto simp: loop_body_def Let_def split: sum.splits)
  have same: "(loop_body g k r l)\<lparr>bulk_operations := []\<rparr> =
      (loop_body g k r (l\<lparr>bulk_operations := []\<rparr>))\<lparr>bulk_operations := []\<rparr>"
    by (auto simp: loop_body_def Let_def split: sum.splits)
  show ?case
    using Cons.IH [of "loop_body g k r l"]
      Cons.IH [of "loop_body g k r (l\<lparr>bulk_operations := []\<rparr>)"] step same
    by simp
qed

lemma skip_warnings_level: "list_all (\<lambda>x. fst x = WARN) (skip_warnings k rs)"
  by (induction rs) (auto split: option.splits)

text \<open>
  With a key, the lines of a call are the warnings of the loop, then lines of level
  \<^verbatim>\<open>INFO\<close> only.
\<close>

lemma logger_keyed:
  assumes "open_database drv (config self) = Inr db"
      and "key_properties self = k # ks"
  shows "\<exists>infos. logger (snd (process_batch drv self st)) =
            logger st @ skip_warnings k (records st) @ infos
          \<and> list_all (\<lambda>x. fst x = INFO) infos"
proof -
  define l where "l = for_records (generate drv) k (records st) (loop_start st)"
  have logged: "logged l = logger st @ skip_warnings k (records st)"
    by (simp add: l_def logged_for_records loop_start_def)
  show ?thesis
    using process_batch_keyed [OF assms l_def refl] logged
    by (auto split: prod.splits sum.splits)
qed

text \<open>A loop that builds no operation has converted no identifier.\<close>

lemma loop_body_grows:
  "\<exists>ops. bulk_operations (loop_body g k r l) = bulk_operations l @ ops
     \<and> (ops = [] \<longrightarrow> taken (loop_body g k r l) = taken l)"
  by (auto simp: loop_body_def Let_def split: sum.splits)

lemma no_operations_none_taken:
  "bulk_operations (for_records g k rs l) = bulk_operations l
     \<Longrightarrow> taken (for_records g k rs l) = taken l"
proof (induction rs arbitrary: l)
  case Nil
  then show ?case by simp
next
  case (Cons r rs)
  obtain ops where ops: "bulk_operations (loop_body g k r l) = bulk_operations l @ ops"
      "ops = [] \<longrightarrow> taken (loop_body g k r l) = taken l"
    using loop_body_grows [of g k r l] by blast
  have "bulk_operations (for_records g k rs (loop_body g k r l)) =
      bulk_operations l @ ops
        @ bulk_operations (for_records g k rs ((loop_body g k r l)\<lparr>bulk_operations := []\<rparr>))"
    using bulk_operations_frame [of g k rs "loop_body g k r l"] ops(1) by simp
  with Cons.prems have empty: "ops = []"
      "bulk_operations (for_records g k rs ((loop_body g k r l)\<lparr>bulk_operations := []\<rparr>)) = []"
    by simp_all
  have "bulk_operations (for_records g k rs (loop_body g k r l)) = bulk_operations (loop_body g k r l)"
    using bulk_operations_frame [of g k rs "loop_body g k r l"] empty(2) by simp
  then have "taken (for_records g k rs (loop_body g k r l)) = taken (loop_body g k r l)"
    by (rule Cons.IH)
  then show ?case using ops(2) empty(1) by simp
qed

lemma reported_append [simp]:
  "reported_updated (xs @ ys) = reported_updated xs + reported_updated ys"
  "reported_upserted (xs @ ys) = reported_upserted xs + reported_upserted ys"
  by (simp_all add: reported_updated_def reported_upserted_def)

lemma reported_nil [simp]: "reported_updated [] = 0" "reported_upserted [] = 0"
  by (simp_all add: reported_updated_def reported_upserted_def)

lemma reported_one [simp]:
  "reported_updated [(lv, m)] = updated_in m" "reported_upserted [(lv, m)] = upserted_in m"
  by (simp_all add: reported_updated_def reported_upserted_def)

lemma reported_updated_skip_warnings [simp]: "reported_updated (skip_warnings k rs) = 0"
proof (induction rs)
  case Nil
  show ?case by simp
next
  case (Cons r rs)
  have "reported_updated (skip_warnings k [r]) = 0"
    by (simp split: option.splits)
  then show ?case
    using Cons skip_warnings_Cons [of k r rs] by (simp del: skip_warnings.simps)
qed

lemma reported_upserted_skip_warnings [simp]: "reported_upserted (skip_warnings k rs) = 0"
proof (induction rs)
  case Nil
  show ?case by simp
next
  case (Cons r rs)
  have "reported_upserted (skip_warnings k [r]) = 0"
    by (simp split: option.splits)
  then show ?case
    using Cons skip_warnings_Cons [of k r rs] by (simp del: skip_warnings.simps)
qed

text \<open>The loop on a record whose identifier converts, and on a key other than \<^verbatim>\<open>_id\<close>.\<close>

lemma loop_body_converted:
  assumes "ObjectId g (taken l) (dict_get r ''_id'' PNone) = Inr (oid, n)"
  shows "loop_body g ''_id'' r l =
     l\<lparr>bulk_operations := bulk_operations l @
         [UpdateOne [(''_id'', oid)] [(''$set'', PDict (dict_pop r ''_id''))] True],
       seen := seen l @ [dict_pop r ''_id''],
       taken := n\<rparr>"
  using assms by (simp add: loop_body_def Let_def)

lemma operations_around_converted:
  assumes "before = for_records g ''_id'' xs l"
      and "ObjectId g (taken before) (dict_get r ''_id'' PNone) = Inr (oid, n)"
  shows "\<exists>rest. bulk_operations (for_records g ''_id'' (xs @ r # ys) l) =
     bulk_operations before
       @ UpdateOne [(''_id'', oid)] [(''$set'', PDict (dict_pop r ''_id''))] True # rest"
proof -
  have "for_records g ''_id'' (xs @ r # ys) l =
      for_records g ''_id'' ys (loop_body g ''_id'' r before)"
    by (simp add: assms(1) for_records_append)
  then have "bulk_operations (for_records g ''_id'' (xs @ r # ys) l) =
      bulk_operations (loop_body g ''_id'' r before)
        @ bulk_operations (for_records g ''_id'' ys
            ((loop_body g ''_id'' r before)\<lparr>bulk_operations := []\<rparr>))"
    using bulk_operations_frame [of g "''_id''" ys "loop_body g ''_id'' r before"] by simp
  then show ?thesis
    by (simp add: loop_body_converted [OF assms(2)])
qed



lemma dict_pop_removes: "map_of (dict_pop r k) k = None"
  by (induction r) (auto simp: dict_pop_def)

lemma dict_pop_keeps: "k' \<noteq> k \<Longrightarrow> map_of (dict_pop r k) k' = map_of r k'"
  by (induction r) (auto simp: dict_pop_def)

lemma for_records_other_key:
  assumes "k \<noteq> ''_id''"
  shows "for_records g k rs l =
     l\<lparr>bulk_operations := bulk_operations l @
         map (\<lambda>r. UpdateOne [(k, dict_get r k PNone)] [(''$set'', PDict r)] True) rs,
       seen := seen l @ rs\<rparr>"
  using assms by (induction rs arbitrary: l) (simp_all add: loop_body_def Let_def)

lemma skip_warnings_other_key: "k \<noteq> ''_id'' \<Longrightarrow> skip_warnings k rs = []"
  by (induction rs) simp_all

lemma seen_for_records:
  "seen (for_records g k rs l) =
     seen l @ map (\<lambda>r. if k = ''_id'' \<and> malformed (dict_get r ''_id'' PNone) = None
                        then dict_pop r ''_id'' else r) rs"
proof (induction rs arbitrary: l)
  case Nil
  then show ?case by simp
next
  case (Cons r rs)
  have "seen (loop_body g k r l) =
      seen l @ [if k = ''_id'' \<and> malformed (dict_get r ''_id'' PNone) = None
                then dict_pop r ''_id'' else r]"
    by (auto simp: loop_body_def Let_def ObjectId_raises_iff
        dest: ObjectId_returns split: sum.splits)
  then show ?case
    using Cons.IH [of "loop_body g k r l"] by simp
qed

text \<open>A record whose identifier converts is in the bulk write that is submitted.\<close>

lemma converted_record_submitted:
  assumes "open_database drv (config self) = Inr db"
      and "key_properties self = ''_id'' # ks"
      and "records st = xs @ r # ys"
      and "before = for_records (generate drv) ''_id'' xs (loop_start st)"
      and "ObjectId (generate drv) (taken before) (dict_get r ''_id'' PNone) = Inr (oid, n)"
  shows "\<exists>rest. calls (snd (process_batch drv self st)) =
           calls st @ [Bulk_write (quote (stream_name self))
             (bulk_operations before
                @ UpdateOne [(''_id'', oid)] [(''$set'', PDict (dict_pop r ''_id''))] True # rest)
             False]"
proof -
  define l where "l = for_records (generate drv) ''_id'' (records st) (loop_start st)"
  obtain rest where rest: "bulk_operations l =
      bulk_operations before
        @ UpdateOne [(''_id'', oid)] [(''$set'', PDict (dict_pop r ''_id''))] True # rest"
    using operations_around_converted [OF assms(4,5), of ys] by (auto simp: l_def assms(3))
  then have "bulk_operations l \<noteq> []"
    by simp
  then have "calls (snd (process_batch drv self st)) =
      calls st @ [Bulk_write (quote (stream_name self)) (bulk_operations l) False]"
    using keyed_outcome(2) [OF assms(1,2) l_def refl] by simp
  then show ?thesis
    using rest by simp
qed

subsection \<open>The examples, evaluated\<close>

lemmas example_defs =
  accepting_driver_def conflicting_driver_def example_gen_def example_config_def
  id_sink_def sku_sink_def plain_sink_def batch_of_def
  good_record_def bad_record_def anonymous_record_def null_id_record_def
  stored_documents_def stored_batch_def stored_driver_def colliding_driver_def

lemmas method_defs =
  process_batch_def finish_def open_database_def connection_string_of_def db_name_of_def
  and_then_def loop_start_def loop_body_def Let_def
  dict_get_def dict_item_def dict_contains_def dict_pop_def
  quote_def quoter_def always_safe_def hex_upper_def hex_value_def isspace_def

lemma example_database [simp]:
  "open_database accepting_driver example_config = Inr ()"
  "open_database conflicting_driver example_config = Inr ()"
  by (simp_all add: example_defs method_defs)

lemma example_collection [simp]: "quote ''tap users'' = ''tap%20users''"
  by (simp add: method_defs)

subsection \<open>The claims\<close>




text \<open>
  C1 (amended). With the key \<^verbatim>\<open>_id\<close>, a record on whose \<^verbatim>\<open>_id\<close> value
  \<^verbatim>\<open>ObjectId\<close> raises is skipped: the method raises or returns as it does on the batch
  without the record, makes the same write calls and leaves the server in the same
  state; and it logs one warning with the value and the exception, between the warnings
  of the records before and after it. The records after it are processed as usual.

  \<^verbatim>\<open>ObjectId\<close> raises on exactly these values: a string whose length is not 24 or that
  \<^verbatim>\<open>bytes.fromhex\<close> rejects (\<^verbatim>\<open>InvalidId\<close>), and a value that is neither \<^verbatim>\<open>None\<close>, a
  string nor an \<^verbatim>\<open>ObjectId\<close> (\<^verbatim>\<open>TypeError\<close>). A string of 24 characters made of pairs
  of hexadecimal digits and of blanks between the pairs is accepted by
  \<^verbatim>\<open>bytes.fromhex\<close>, so such a record is upserted, as is one with a null \<^verbatim>\<open>_id\<close>.
\<close>

theorem malformed_id_is_skipped:
  assumes "open_database drv (config self) = Inr db"
      and "key_properties self = ''_id'' # ks"
      and "ObjectId (generate drv) n (dict_get r ''_id'' PNone) = Inl e"
  shows "fst (process_batch drv self (st\<lparr>records := xs @ r # ys\<rparr>))
           = fst (process_batch drv self (st\<lparr>records := xs @ ys\<rparr>))
       \<and> calls (snd (process_batch drv self (st\<lparr>records := xs @ r # ys\<rparr>)))
           = calls (snd (process_batch drv self (st\<lparr>records := xs @ ys\<rparr>)))
       \<and> world (snd (process_batch drv self (st\<lparr>records := xs @ r # ys\<rparr>)))
           = world (snd (process_batch drv self (st\<lparr>records := xs @ ys\<rparr>)))
       \<and> (\<exists>infos. logger (snd (process_batch drv self (st\<lparr>records := xs @ r # ys\<rparr>))) =
             logger st @ skip_warnings ''_id'' xs
               @ [(WARN, Malformed_id (dict_get r ''_id'' PNone) e)]
               @ skip_warnings ''_id'' ys @ infos
             \<and> list_all (\<lambda>x. fst x = INFO) infos)
       \<and> (\<forall>g m v e'. (ObjectId g m v = Inl e') =
             (case v of
                PStr s \<Rightarrow> (length s \<noteq> 24 \<or> fromhex s = None) \<and> e' = InvalidId (PStr s)
              | PNone \<Rightarrow> False
              | PObjectId b \<Rightarrow> False
              | _ \<Rightarrow> e' = TypeError v))"
proof -
  let ?g = "generate drv"
  let ?with = "st\<lparr>records := xs @ r # ys\<rparr>"
  let ?without = "st\<lparr>records := xs @ ys\<rparr>"
  define before where "before = for_records ?g ''_id'' xs (loop_start st)"
  define l where "l = for_records ?g ''_id'' (records ?with) (loop_start ?with)"
  define l' where "l' = for_records ?g ''_id'' (records ?without) (loop_start ?without)"
  have skipped: "loop_body ?g ''_id'' r before =
      before\<lparr>logged := logged before @ [(WARN, Malformed_id (dict_get r ''_id'' PNone) e)],
             seen := seen before @ [r]\<rparr>"
    by (rule loop_body_malformed [OF assms(3)])
  have l: "l = for_records ?g ''_id'' ys (loop_body ?g ''_id'' r before)"
    by (simp add: l_def before_def for_records_append)
  have l': "l' = for_records ?g ''_id'' ys before"
    by (simp add: l'_def before_def for_records_append)
  have same: "bulk_operations l = bulk_operations l' \<and> taken l = taken l'"
    unfolding l l' by (rule for_records_cong) (simp_all add: skipped)
  have malformed: "malformed (dict_get r ''_id'' PNone) = Some e"
    using assms(3) by (simp add: ObjectId_raises_iff)
  have warnings: "skip_warnings ''_id'' (xs @ r # ys) =
      skip_warnings ''_id'' xs @ [(WARN, Malformed_id (dict_get r ''_id'' PNone) e)]
        @ skip_warnings ''_id'' ys"
    using malformed by (simp add: skip_warnings_append)
  have outcome: "fst (process_batch drv self ?with) = fst (process_batch drv self ?without)
      \<and> calls (snd (process_batch drv self ?with)) = calls (snd (process_batch drv self ?without))
      \<and> world (snd (process_batch drv self ?with)) = world (snd (process_batch drv self ?without))"
    unfolding keyed_outcome [OF assms(1,2) l_def refl] keyed_outcome [OF assms(1,2) l'_def refl]
    using same by simp
  have lines: "\<exists>infos. logger (snd (process_batch drv self ?with)) =
        logger ?with @ skip_warnings ''_id'' (records ?with) @ infos
      \<and> list_all (\<lambda>x. fst x = INFO) infos"
    by (rule logger_keyed [OF assms(1,2)])
  have raises: "\<forall>g m v e'. (ObjectId g m v = Inl e') =
      (case v of
         PStr s \<Rightarrow> (length s \<noteq> 24 \<or> fromhex s = None) \<and> e' = InvalidId (PStr s)
       | PNone \<Rightarrow> False
       | PObjectId b \<Rightarrow> False
       | _ \<Rightarrow> e' = TypeError v)"
    by (intro allI) (rule ObjectId_raises_on)
  have skipped_lines: "\<exists>infos. logger (snd (process_batch drv self ?with)) =
        logger st @ skip_warnings ''_id'' xs
          @ [(WARN, Malformed_id (dict_get r ''_id'' PNone) e)]
          @ skip_warnings ''_id'' ys @ infos
      \<and> list_all (\<lambda>x. fst x = INFO) infos"
    using lines warnings by simp
  from outcome skipped_lines raises show ?thesis
    by (intro conjI) (elim conjE, assumption)+
qed

theorem malformed_id_is_skipped_witness:
  "open_database accepting_driver (config id_sink) = Inr ()
   \<and> key_properties id_sink = ''_id'' # []
   \<and> ObjectId (generate accepting_driver) 0 (dict_get bad_record ''_id'' PNone)
       = Inl (InvalidId (PStr ''bad''))
   \<and> fst (process_batch accepting_driver id_sink
        (batch_of []\<lparr>records := [good_record] @ bad_record # [anonymous_record]\<rparr>))
       = fst (process_batch accepting_driver id_sink
        (batch_of []\<lparr>records := [good_record] @ [anonymous_record]\<rparr>))
   \<and> calls (snd (process_batch accepting_driver id_sink
        (batch_of []\<lparr>records := [good_record] @ bad_record # [anonymous_record]\<rparr>)))
       = calls (snd (process_batch accepting_driver id_sink
        (batch_of []\<lparr>records := [good_record] @ [anonymous_record]\<rparr>)))
   \<and> world (snd (process_batch accepting_driver id_sink
        (batch_of []\<lparr>records := [good_record] @ bad_record # [anonymous_record]\<rparr>)))
       = world (snd (process_batch accepting_driver id_sink
        (batch_of []\<lparr>records := [good_record] @ [anonymous_record]\<rparr>)))
   \<and> (\<exists>infos. logger (snd (process_batch accepting_driver id_sink
        (batch_of []\<lparr>records := [good_record] @ bad_record # [anonymous_record]\<rparr>))) =
          logger (batch_of []) @ skip_warnings ''_id'' [good_record]
            @ [(WARN, Malformed_id (dict_get bad_record ''_id'' PNone) (InvalidId (PStr ''bad'')))]
            @ skip_warnings ''_id'' [anonymous_record] @ infos
        \<and> list_all (\<lambda>x. fst x = INFO) infos)
   \<and> (ObjectId example_gen 0 (PStr ''                        '')
         = Inl (InvalidId (PStr ''                        ''))) = False"
proof -
  have opened: "open_database accepting_driver (config id_sink) = Inr ()"
    by (simp add: id_sink_def)
  have key: "key_properties id_sink = ''_id'' # []"
    by (simp add: id_sink_def)
  have raises: "ObjectId (generate accepting_driver) 0 (dict_get bad_record ''_id'' PNone)
      = Inl (InvalidId (PStr ''bad''))"
    by (simp add: bad_record_def dict_get_def)
  note claim = malformed_id_is_skipped [OF opened key raises,
      where st = "batch_of []" and xs = "[good_record]" and ys = "[anonymous_record]"]
  have blanks: "fromhex ''                        '' = Some []"
    by (simp add: isspace_def)
  from claim have "(ObjectId example_gen 0 (PStr ''                        '')
        = Inl (InvalidId (PStr ''                        ''))) =
      (case PStr ''                        '' of
         PStr s \<Rightarrow> (length s \<noteq> 24 \<or> fromhex s = None)
           \<and> InvalidId (PStr ''                        '') = InvalidId (PStr s)
       | PNone \<Rightarrow> False
       | PObjectId b \<Rightarrow> False
       | _ \<Rightarrow> InvalidId (PStr ''                        '') = TypeError (PStr ''                        ''))"
    by blast
  then have accepted: "(ObjectId example_gen 0 (PStr ''                        '')
        = Inl (InvalidId (PStr ''                        ''))) = False"
    by (simp only: pyval.case blanks option.distinct) simp
  from opened key raises claim accepted show ?thesis
    by (intro conjI) (elim conjE, assumption)+
qed

text \<open>
  C1, as stated, counts a null \<^verbatim>\<open>_id\<close> among the values that cannot be converted.
  \<^verbatim>\<open>ObjectId(None)\<close> does not raise: for the batch of the one record
  \<^verbatim>\<open>{"_id": None, "name": "d"}\<close> an upsert is submitted and no warning is logged.
\<close>

theorem null_id_is_not_skipped:
  "process_batch accepting_driver id_sink (batch_of [null_id_record]) =
     (None,
      \<lparr>records = [],
       logger = [(INFO, Bulk_write_completed 0 1), (INFO, Uploaded 1 ''tap%20users'')],
       calls = [Bulk_write ''tap%20users''
                  [UpdateOne [(''_id'', PObjectId (example_gen 0))]
                     [(''$set'', PDict [(''name'', PStr ''d'')])] True]
                  False],
       world = 1, generated = 1\<rparr>)"
  by (simp add: example_defs method_defs)

text \<open>
  C3 (amended). When the unordered bulk write reports failed operations, which the
  driver does by raising \<^verbatim>\<open>BulkWriteError\<close>, \<^verbatim>\<open>process_batch\<close> does not catch the
  exception: it leaves the method. The bulk write has been called once and is not
  called again, the log holds the warnings of the loop and neither a result line nor
  the summary line, and \<^verbatim>\<open>context["records"]\<close> is not reset (it holds the records as
  the loop left them).
\<close>

theorem bulk_write_error_propagates:
  assumes "open_database drv (config self) = Inr db"
      and "key_properties self = k # ks"
      and "l = for_records (generate drv) k (records st) (loop_start st)"
      and "bulk_operations l \<noteq> []"
      and "bulk_write drv db (quote (stream_name self)) (bulk_operations l) False (world st)
             = (Inl e, w)"
  shows "process_batch drv self st =
     (Some e,
      st\<lparr>records := seen l, generated := taken l,
         logger := logger st @ skip_warnings k (records st),
         calls := calls st @ [Bulk_write (quote (stream_name self)) (bulk_operations l) False],
         world := w\<rparr>)"
proof -
  have "logged l = logger st @ skip_warnings k (records st)"
    by (simp add: assms(3) logged_for_records loop_start_def)
  then show ?thesis
    using process_batch_keyed [OF assms(1,2,3) refl] assms(4,5) by simp
qed

theorem bulk_write_error_propagates_witness:
  "open_database conflicting_driver (config id_sink) = Inr ()
   \<and> key_properties id_sink = ''_id'' # []
   \<and> bulk_operations (for_records (generate conflicting_driver) ''_id''
        (records (batch_of [good_record, bad_record]))
        (loop_start (batch_of [good_record, bad_record]))) \<noteq> []
   \<and> bulk_write conflicting_driver () (quote (stream_name id_sink))
        (bulk_operations (for_records (generate conflicting_driver) ''_id''
          (records (batch_of [good_record, bad_record]))
          (loop_start (batch_of [good_record, bad_record]))))
        False (world (batch_of [good_record, bad_record]))
       = (Inl (BulkWriteError [(0, 11000)]), 0)
   \<and> process_batch conflicting_driver id_sink (batch_of [good_record, bad_record]) =
       (Some (BulkWriteError [(0, 11000)]),
        \<lparr>records = [[(''name'', PStr ''a'')], bad_record],
         logger = [(WARN, Malformed_id (PStr ''bad'') (InvalidId (PStr ''bad'')))],
         calls = [Bulk_write ''tap%20users''
                    [UpdateOne
                       [(''_id'', PObjectId [80, 127, 31, 119, 188, 248, 108, 215, 153, 67, 144, 17])]
                       [(''$set'', PDict [(''name'', PStr ''a'')])] True]
                    False],
         world = 0, generated = 0\<rparr>)"
proof -
  let ?st = "batch_of [good_record, bad_record]"
  let ?l = "for_records (generate conflicting_driver) ''_id'' (records ?st) (loop_start ?st)"
  have opened: "open_database conflicting_driver (config id_sink) = Inr ()"
    by (simp add: id_sink_def)
  have key: "key_properties id_sink = ''_id'' # []"
    by (simp add: id_sink_def)
  have ops: "bulk_operations ?l \<noteq> []"
    by (simp add: example_defs method_defs)
  have raised: "bulk_write conflicting_driver () (quote (stream_name id_sink))
      (bulk_operations ?l) False (world ?st) = (Inl (BulkWriteError [(0, 11000)]), 0)"
    by (simp add: example_defs method_defs)
  show ?thesis
    using opened key ops raised bulk_write_error_propagates [OF opened key refl ops raised]
    by (simp add: example_defs method_defs)
qed

text \<open>
  C3, as stated, has the failed operations included in a result and no error propagated.
  On a server that reports a duplicate key for the first operation, the exception leaves
  \<^verbatim>\<open>process_batch\<close> and nothing is logged.
\<close>

theorem write_errors_leave_the_method:
  "process_batch conflicting_driver id_sink (batch_of [good_record]) =
     (Some (BulkWriteError [(0, 11000)]),
      \<lparr>records = [[(''name'', PStr ''a'')]],
       logger = [],
       calls = [Bulk_write ''tap%20users''
                  [UpdateOne
                     [(''_id'', PObjectId [80, 127, 31, 119, 188, 248, 108, 215, 153, 67, 144, 17])]
                     [(''$set'', PDict [(''name'', PStr ''a'')])] True]
                  False],
       world = 0, generated = 0\<rparr>)"
  by (simp add: example_defs method_defs)

text \<open>
  C4 (amended). With a key, a batch for which the loop builds no operation (an empty
  batch, or one whose records were all skipped) makes no write call and does not raise:
  the method logs one warning for each record and the summary line, reports no updated
  or upserted count, and resets \<^verbatim>\<open>context["records"]\<close>. The calls, the server and the
  number of generated identifiers are as before.
\<close>

theorem no_operations_no_write:
  assumes "open_database drv (config self) = Inr db"
      and "key_properties self = k # ks"
      and "bulk_operations (for_records (generate drv) k (records st) (loop_start st)) = []"
  shows "process_batch drv self st =
           (None,
            st\<lparr>records := [],
               logger := logger st @ skip_warnings k (records st)
                 @ [(INFO, Uploaded (length (records st)) (quote (stream_name self)))]\<rparr>)
       \<and> length (skip_warnings k (records st)) = length (records st)
       \<and> reported_updated (skip_warnings k (records st)
            @ [(INFO, Uploaded (length (records st)) (quote (stream_name self)))]) = 0
       \<and> reported_upserted (skip_warnings k (records st)
            @ [(INFO, Uploaded (length (records st)) (quote (stream_name self)))]) = 0"
proof -
  define l where "l = for_records (generate drv) k (records st) (loop_start st)"
  have none: "bulk_operations l = []"
    using assms(3) by (simp add: l_def)
  have logged: "logged l = logger st @ skip_warnings k (records st)"
    by (simp add: l_def logged_for_records loop_start_def)
  have "bulk_operations l = bulk_operations (loop_start st)"
    using none by (simp add: loop_start_def)
  then have "taken l = taken (loop_start st)"
    unfolding l_def by (rule no_operations_none_taken)
  then have taken: "taken l = generated st"
    by (simp add: loop_start_def)
  have count: "length (skip_warnings k (records st)) = length (records st)"
    using count_for_records [of "generate drv" k "records st" "loop_start st"] none
    by (simp add: l_def loop_start_def)
  have "process_batch drv self st =
      (None, st\<lparr>records := [], generated := taken l,
                logger := logged l @ [(INFO, Uploaded (length (records st)) (quote (stream_name self)))]\<rparr>)"
    using process_batch_keyed [OF assms(1,2) l_def refl] none by simp
  then show ?thesis
    using logged taken count by simp
qed

theorem no_operations_no_write_witness:
  "open_database accepting_driver (config id_sink) = Inr ()
   \<and> key_properties id_sink = ''_id'' # []
   \<and> bulk_operations (for_records (generate accepting_driver) ''_id''
        (records (batch_of [bad_record])) (loop_start (batch_of [bad_record]))) = []
   \<and> process_batch accepting_driver id_sink (batch_of [bad_record]) =
       (None,
        \<lparr>records = [],
         logger = [(WARN, Malformed_id (PStr ''bad'') (InvalidId (PStr ''bad''))),
                   (INFO, Uploaded 1 ''tap%20users'')],
         calls = [], world = 0, generated = 0\<rparr>)"
proof -
  let ?st = "batch_of [bad_record]"
  have opened: "open_database accepting_driver (config id_sink) = Inr ()"
    by (simp add: id_sink_def)
  have key: "key_properties id_sink = ''_id'' # []"
    by (simp add: id_sink_def)
  have none: "bulk_operations (for_records (generate accepting_driver) ''_id''
      (records ?st) (loop_start ?st)) = []"
    by (simp add: example_defs method_defs)
  show ?thesis
    using opened key none no_operations_no_write [OF opened key none]
    by (simp add: example_defs method_defs malformed_def)
qed

text \<open>
  C4, as stated, covers the empty batch without a key. There \<^verbatim>\<open>insert_many\<close> is called
  on the empty list (line 88 has no guard like the one of line 80), and pymongo rejects
  the empty list with \<^verbatim>\<open>TypeError\<close>, which leaves the method.
\<close>

theorem empty_batch_without_key_calls_insert_many:
  "process_batch accepting_driver plain_sink (batch_of []) =
     (Some (TypeError (PList [])),
      \<lparr>records = [], logger = [], calls = [Insert_many ''tap%20users'' []],
       world = 0, generated = 0\<rparr>)"
  by (simp add: example_defs method_defs)

text \<open>
  C5. Without a key, the one write call of the method is \<^verbatim>\<open>insert_many\<close> on the
  records of the batch, unchanged and in their order: one plain insert for each record
  and no upsert. No identifier is generated, and the log reports no updated or upserted
  count: the method logs the summary line when \<^verbatim>\<open>insert_many\<close> returns, and nothing
  when it raises.
\<close>

theorem no_key_plain_inserts:
  assumes "open_database drv (config self) = Inr db"
      and "key_properties self = []"
  shows "calls (snd (process_batch drv self st)) =
           calls st @ [Insert_many (quote (stream_name self)) (records st)]
       \<and> generated (snd (process_batch drv self st)) = generated st
       \<and> logger (snd (process_batch drv self st)) =
           logger st @
             (if fst (process_batch drv self st) = None
              then [(INFO, Uploaded (length (records st)) (quote (stream_name self)))] else [])
       \<and> reported_updated (logger (snd (process_batch drv self st))) = reported_updated (logger st)
       \<and> reported_upserted (logger (snd (process_batch drv self st))) = reported_upserted (logger st)"
  unfolding process_batch_plain [OF assms refl]
  by (simp split: prod.splits option.splits)

theorem no_key_plain_inserts_witness:
  "open_database accepting_driver (config plain_sink) = Inr ()
   \<and> key_properties plain_sink = []
   \<and> calls (snd (process_batch accepting_driver plain_sink (batch_of [good_record, bad_record]))) =
       [Insert_many ''tap%20users'' [good_record, bad_record]]
   \<and> generated (snd (process_batch accepting_driver plain_sink (batch_of [good_record, bad_record]))) = 0
   \<and> logger (snd (process_batch accepting_driver plain_sink (batch_of [good_record, bad_record]))) =
       [(INFO, Uploaded 2 ''tap%20users'')]
   \<and> reported_updated (logger
        (snd (process_batch accepting_driver plain_sink (batch_of [good_record, bad_record])))) = 0
   \<and> reported_upserted (logger
        (snd (process_batch accepting_driver plain_sink (batch_of [good_record, bad_record])))) = 0"
proof -
  have opened: "open_database accepting_driver (config plain_sink) = Inr ()"
    by (simp add: plain_sink_def)
  have key: "key_properties plain_sink = []"
    by (simp add: plain_sink_def)
  have returns:
    "fst (process_batch accepting_driver plain_sink (batch_of [good_record, bad_record])) = None"
    by (simp add: example_defs method_defs)
  show ?thesis
    using opened key returns
      no_key_plain_inserts [OF opened key, where st = "batch_of [good_record, bad_record]"]
    by (simp add: plain_sink_def batch_of_def)
qed

text \<open>
  C6. With the key \<^verbatim>\<open>_id\<close>, a record whose \<^verbatim>\<open>_id\<close> value converts becomes, in the
  bulk write that the method submits, an \<^verbatim>\<open>UpdateOne\<close> with upsert whose filter is
  \<^verbatim>\<open>{"_id": converted}\<close> and whose update is \<^verbatim>\<open>{"$set": record}\<close>, where the record has
  lost its \<^verbatim>\<open>_id\<close> field and kept every other field: a partial update, not a
  replacement of the document.
\<close>

theorem converted_id_upsert:
  assumes "open_database drv (config self) = Inr db"
      and "key_properties self = ''_id'' # ks"
      and "records st = xs @ r # ys"
      and "before = for_records (generate drv) ''_id'' xs (loop_start st)"
      and "ObjectId (generate drv) (taken before) (dict_get r ''_id'' PNone) = Inr (oid, n)"
  shows "(\<exists>rest. calls (snd (process_batch drv self st)) =
           calls st @ [Bulk_write (quote (stream_name self))
             (bulk_operations before
                @ UpdateOne [(''_id'', oid)] [(''$set'', PDict (dict_pop r ''_id''))] True # rest)
             False])
       \<and> map_of (dict_pop r ''_id'') ''_id'' = None
       \<and> (\<forall>k. k \<noteq> ''_id'' \<longrightarrow> map_of (dict_pop r ''_id'') k = map_of r k)"
  using converted_record_submitted [OF assms]
  by (simp add: dict_pop_removes dict_pop_keeps)

theorem converted_id_upsert_witness:
  "open_database accepting_driver (config id_sink) = Inr ()
   \<and> key_properties id_sink = ''_id'' # []
   \<and> records (batch_of [bad_record, good_record, anonymous_record])
       = [bad_record] @ good_record # [anonymous_record]
   \<and> ObjectId (generate accepting_driver)
        (taken (for_records (generate accepting_driver) ''_id'' [bad_record]
           (loop_start (batch_of [bad_record, good_record, anonymous_record]))))
        (dict_get good_record ''_id'' PNone)
       = Inr (PObjectId [80, 127, 31, 119, 188, 248, 108, 215, 153, 67, 144, 17], 0)
   \<and> (\<exists>rest. calls (snd (process_batch accepting_driver id_sink
          (batch_of [bad_record, good_record, anonymous_record]))) =
        calls (batch_of [bad_record, good_record, anonymous_record])
          @ [Bulk_write (quote (stream_name id_sink))
               (bulk_operations (for_records (generate accepting_driver) ''_id'' [bad_record]
                   (loop_start (batch_of [bad_record, good_record, anonymous_record])))
                  @ UpdateOne
                      [(''_id'', PObjectId [80, 127, 31, 119, 188, 248, 108, 215, 153, 67, 144, 17])]
                      [(''$set'', PDict (dict_pop good_record ''_id''))] True # rest)
               False])
   \<and> map_of (dict_pop good_record ''_id'') ''_id'' = None
   \<and> map_of (dict_pop good_record ''_id'') ''name'' = map_of good_record ''name''"
proof -
  let ?st = "batch_of [bad_record, good_record, anonymous_record]"
  have opened: "open_database accepting_driver (config id_sink) = Inr ()"
    by (simp add: id_sink_def)
  have key: "key_properties id_sink = ''_id'' # []"
    by (simp add: id_sink_def)
  have batch: "records ?st = [bad_record] @ good_record # [anonymous_record]"
    by (simp add: batch_of_def)
  have converts: "ObjectId (generate accepting_driver)
      (taken (for_records (generate accepting_driver) ''_id'' [bad_record] (loop_start ?st)))
      (dict_get good_record ''_id'' PNone)
      = Inr (PObjectId [80, 127, 31, 119, 188, 248, 108, 215, 153, 67, 144, 17], 0)"
    by (simp add: example_defs method_defs)
  show ?thesis
    using opened key batch converts converted_id_upsert [OF opened key batch refl converts]
    by simp
qed

text \<open>
  C7 (amended). For a batch that \<^verbatim>\<open>process_batch\<close> completes, the lines it logs are:
  one warning for each skipped record, with the value and the exception; then, only
  with a key and at least one operation, one line with the \<^verbatim>\<open>modified_count\<close> and
  the \<^verbatim>\<open>upserted_count\<close> of the bulk write; then the summary line with
  \<^verbatim>\<open>len(records)\<close> and the collection name \<^verbatim>\<open>quote(stream_name)\<close>. No line carries
  a number of skipped records or a list of skip reasons.
\<close>

theorem lines_logged_for_a_batch:
  assumes "open_database drv (config self) = Inr db"
      and "fst (process_batch drv self st) = None"
  shows "logger (snd (process_batch drv self st)) =
     logger st
     @ (case key_properties self of
          [] \<Rightarrow> []
        | k # ks \<Rightarrow>
            skip_warnings k (records st)
            @ (if bulk_operations (for_records (generate drv) k (records st) (loop_start st)) = []
               then []
               else (case fst (bulk_write drv db (quote (stream_name self))
                                (bulk_operations
                                   (for_records (generate drv) k (records st) (loop_start st)))
                                False (world st)) of
                       Inl e \<Rightarrow> []
                     | Inr result \<Rightarrow>
                         [(INFO, Bulk_write_completed (modified_count result)
                                   (upserted_count result))])))
     @ [(INFO, Uploaded (length (records st)) (quote (stream_name self)))]"
proof (cases "key_properties self")
  case Nil
  show ?thesis
    using assms(2) unfolding process_batch_plain [OF assms(1) Nil refl]
    by (simp add: Nil split: prod.splits option.splits)
next
  case (Cons k ks)
  define l where "l = for_records (generate drv) k (records st) (loop_start st)"
  have logged: "logged l = logger st @ skip_warnings k (records st)"
    by (simp add: l_def logged_for_records loop_start_def)
  show ?thesis
    using assms(2) logged unfolding process_batch_keyed [OF assms(1) Cons l_def refl]
    by (simp add: Cons l_def [symmetric] split: prod.splits sum.splits if_splits)
qed

theorem lines_logged_for_a_batch_witness:
  "open_database accepting_driver (config id_sink) = Inr ()
   \<and> fst (process_batch accepting_driver id_sink
        (batch_of [good_record, bad_record, anonymous_record])) = None
   \<and> logger (snd (process_batch accepting_driver id_sink
        (batch_of [good_record, bad_record, anonymous_record]))) =
       [(WARN, Malformed_id (PStr ''bad'') (InvalidId (PStr ''bad''))),
        (INFO, Bulk_write_completed 0 2),
        (INFO, Uploaded 3 ''tap%20users'')]"
proof -
  let ?st = "batch_of [good_record, bad_record, anonymous_record]"
  let ?l = "for_records (generate accepting_driver) ''_id'' (records ?st) (loop_start ?st)"
  have opened: "open_database accepting_driver (config id_sink) = Inr ()"
    by (simp add: id_sink_def)
  have returns: "fst (process_batch accepting_driver id_sink ?st) = None"
    by (simp add: example_defs method_defs)
  have key: "key_properties id_sink = [''_id'']" "stream_name id_sink = ''tap users''"
    by (simp_all add: id_sink_def)
  have warnings: "skip_warnings ''_id'' (records ?st) =
      [(WARN, Malformed_id (PStr ''bad'') (InvalidId (PStr ''bad'')))]"
    by (simp add: example_defs malformed_def dict_get_def hex_value_def isspace_def)
  have ops: "length (bulk_operations ?l) = 2"
    by (simp add: example_defs method_defs)
  then have some: "bulk_operations ?l \<noteq> []"
    by auto
  have result: "fst (bulk_write accepting_driver () ''tap%20users'' (bulk_operations ?l) False
      (world ?st)) = Inr \<lparr>matched_count = 0, modified_count = 0, upserted_count = 2\<rparr>"
    using ops by (simp add: accepting_driver_def)
  have size: "length (records ?st) = 3"
    by (simp add: batch_of_def)
  have "logger ?st = []"
    by (simp add: batch_of_def)
  then have "logger (snd (process_batch accepting_driver id_sink ?st)) =
       [(WARN, Malformed_id (PStr ''bad'') (InvalidId (PStr ''bad''))),
        (INFO, Bulk_write_completed 0 2),
        (INFO, Uploaded 3 ''tap%20users'')]"
    unfolding lines_logged_for_a_batch [OF opened returns]
    by (simp only: key warnings some result size example_collection list.case if_False sum.case
        bulk_write_result.simps append.simps)
  with opened returns show ?thesis
    by (intro conjI)
qed

text \<open>
  C7, as stated, has a result record with the updated, upserted and skipped counts and
  the skip reasons after each batch. For a batch of two records that are both skipped,
  the log holds the two warnings and the summary line, and no count.
\<close>

theorem skipped_batch_logs_no_result:
  "process_batch accepting_driver id_sink (batch_of [bad_record, bad_record]) =
     (None,
      \<lparr>records = [],
       logger = [(WARN, Malformed_id (PStr ''bad'') (InvalidId (PStr ''bad''))),
                 (WARN, Malformed_id (PStr ''bad'') (InvalidId (PStr ''bad''))),
                 (INFO, Uploaded 2 ''tap%20users'')],
       calls = [], world = 0, generated = 0\<rparr>)"
  by (simp add: example_defs method_defs)




text \<open>
  C9. With a key other than \<^verbatim>\<open>_id\<close>, the loop validates nothing and skips nothing: no
  identifier is converted or generated, no warning is logged, and every record of the
  batch becomes one upsert whose filter is \<^verbatim>\<open>{key: record.get(key)}\<close> and whose update
  sets the fields of the unchanged record. A record without the key field gets the
  filter \<^verbatim>\<open>{key: None}\<close>, so all such records have the same filter, which matches the
  same stored documents.
\<close>

theorem other_key_upserts_every_record:
  assumes "open_database drv (config self) = Inr db"
      and "key_properties self = k # ks"
      and "k \<noteq> ''_id''"
  shows "calls (snd (process_batch drv self st)) =
           calls st @
             (if records st = [] then []
              else [Bulk_write (quote (stream_name self))
                      (map (\<lambda>r. UpdateOne [(k, dict_get r k PNone)] [(''$set'', PDict r)] True)
                         (records st))
                      False])
       \<and> generated (snd (process_batch drv self st)) = generated st
       \<and> (\<exists>infos. logger (snd (process_batch drv self st)) = logger st @ infos
             \<and> list_all (\<lambda>x. fst x = INFO) infos)
       \<and> (\<forall>r. map_of r k = None \<longrightarrow>
             UpdateOne [(k, dict_get r k PNone)] [(''$set'', PDict r)] True
               = UpdateOne [(k, PNone)] [(''$set'', PDict r)] True)
       \<and> (\<forall>r r' doc. map_of r k = None \<longrightarrow> map_of r' k = None \<longrightarrow>
             matches [(k, dict_get r k PNone)] doc = matches [(k, dict_get r' k PNone)] doc)"
proof -
  define l where "l = for_records (generate drv) k (records st) (loop_start st)"
  have l: "l = (loop_start st)\<lparr>bulk_operations := bulk_operations (loop_start st) @
        map (\<lambda>r. UpdateOne [(k, dict_get r k PNone)] [(''$set'', PDict r)] True) (records st),
      seen := seen (loop_start st) @ records st\<rparr>"
    unfolding l_def by (rule for_records_other_key [OF assms(3)])
  have ops: "bulk_operations l =
      map (\<lambda>r. UpdateOne [(k, dict_get r k PNone)] [(''$set'', PDict r)] True) (records st)"
    by (simp add: l loop_start_def)
  have taken: "taken l = generated st"
    by (simp add: l loop_start_def)
  have submitted: "calls (snd (process_batch drv self st)) =
      calls st @
        (if records st = [] then []
         else [Bulk_write (quote (stream_name self))
                 (map (\<lambda>r. UpdateOne [(k, dict_get r k PNone)] [(''$set'', PDict r)] True)
                    (records st))
                 False])"
    using keyed_outcome(2) [OF assms(1,2) l_def refl] by (simp add: ops)
  have generated: "generated (snd (process_batch drv self st)) = generated st"
    using keyed_outcome(4) [OF assms(1,2) l_def refl] by (simp add: taken)
  have lines: "\<exists>infos. logger (snd (process_batch drv self st)) = logger st @ infos
      \<and> list_all (\<lambda>x. fst x = INFO) infos"
    using logger_keyed [OF assms(1,2), of st] by (simp add: skip_warnings_other_key [OF assms(3)])
  have missing: "\<forall>r. map_of r k = None \<longrightarrow> dict_get r k PNone = PNone"
    by (simp add: dict_get_def)
  show ?thesis
    using submitted generated lines missing by simp
qed

theorem other_key_upserts_every_record_witness:
  "open_database accepting_driver (config sku_sink) = Inr ()
   \<and> key_properties sku_sink = ''sku'' # []
   \<and> ''sku'' \<noteq> ''_id''
   \<and> map_of good_record ''sku'' = None
   \<and> map_of bad_record ''sku'' = None
   \<and> calls (snd (process_batch accepting_driver sku_sink (batch_of [good_record, bad_record]))) =
       calls (batch_of [good_record, bad_record]) @
         (if records (batch_of [good_record, bad_record]) = [] then []
          else [Bulk_write (quote (stream_name sku_sink))
                  (map (\<lambda>r. UpdateOne [(''sku'', dict_get r ''sku'' PNone)] [(''$set'', PDict r)] True)
                     (records (batch_of [good_record, bad_record])))
                  False])
   \<and> generated (snd (process_batch accepting_driver sku_sink (batch_of [good_record, bad_record])))
       = generated (batch_of [good_record, bad_record])
   \<and> UpdateOne [(''sku'', dict_get good_record ''sku'' PNone)] [(''$set'', PDict good_record)] True
       = UpdateOne [(''sku'', PNone)] [(''$set'', PDict good_record)] True
   \<and> matches [(''sku'', dict_get good_record ''sku'' PNone)] [(''sku'', PNone), (''price'', PInt 10)]
       = matches [(''sku'', dict_get bad_record ''sku'' PNone)] [(''sku'', PNone), (''price'', PInt 10)]"
proof -
  let ?st = "batch_of [good_record, bad_record]"
  have opened: "open_database accepting_driver (config sku_sink) = Inr ()"
    by (simp add: sku_sink_def)
  have key: "key_properties sku_sink = ''sku'' # []"
    by (simp add: sku_sink_def)
  have other: "''sku'' \<noteq> ''_id''"
    by simp
  have missing: "map_of good_record ''sku'' = None" "map_of bad_record ''sku'' = None"
    by (simp_all add: good_record_def bad_record_def)
  note claim = other_key_upserts_every_record [OF opened key other, of ?st]
  from claim have submitted:
    "calls (snd (process_batch accepting_driver sku_sink ?st)) =
       calls ?st @
         (if records ?st = [] then []
          else [Bulk_write (quote (stream_name sku_sink))
                  (map (\<lambda>r. UpdateOne [(''sku'', dict_get r ''sku'' PNone)] [(''$set'', PDict r)] True)
                     (records ?st))
                  False])"
    by (rule conjunct1)
  from claim have generated:
    "generated (snd (process_batch accepting_driver sku_sink ?st)) = generated ?st"
    by blast
  from claim missing(1) have filter:
    "UpdateOne [(''sku'', dict_get good_record ''sku'' PNone)] [(''$set'', PDict good_record)] True
       = UpdateOne [(''sku'', PNone)] [(''$set'', PDict good_record)] True"
    by blast
  from claim missing have same:
    "matches [(''sku'', dict_get good_record ''sku'' PNone)] [(''sku'', PNone), (''price'', PInt 10)]
       = matches [(''sku'', dict_get bad_record ''sku'' PNone)] [(''sku'', PNone), (''price'', PInt 10)]"
    by blast
  from opened key other missing submitted generated filter same show ?thesis
    by (intro conjI)
qed

text \<open>
  C10. When \<^verbatim>\<open>process_batch\<close> returns, the last line of the log is the summary line,
  and the number it reports is \<^verbatim>\<open>len(records)\<close>, the size of the batch as it arrived.
  With a key, the loop leaves every record in the list (a skipped record unchanged, a
  converted one without its \<^verbatim>\<open>_id\<close>), so the number is the number of operations
  submitted plus the number of records skipped.
\<close>

theorem summary_line_counts_whole_batch:
  assumes "fst (process_batch drv self st) = None"
  shows "last (logger (snd (process_batch drv self st))) =
           (INFO, Uploaded (length (records st)) (quote (stream_name self)))
       \<and> (\<forall>k ks. key_properties self = k # ks \<longrightarrow>
             calls (snd (process_batch drv self st)) =
               calls st @
                 (if bulk_operations (for_records (generate drv) k (records st) (loop_start st)) = []
                  then []
                  else [Bulk_write (quote (stream_name self))
                          (bulk_operations
                             (for_records (generate drv) k (records st) (loop_start st)))
                          False])
           \<and> seen (for_records (generate drv) k (records st) (loop_start st)) =
               map (\<lambda>r. if k = ''_id'' \<and> malformed (dict_get r ''_id'' PNone) = None
                          then dict_pop r ''_id'' else r) (records st)
           \<and> length (records st) =
               length (bulk_operations (for_records (generate drv) k (records st) (loop_start st)))
               + length (skip_warnings k (records st)))"
proof (cases "open_database drv (config self)")
  case (Inl e)
  then show ?thesis
    using assms by (simp add: process_batch_unopened)
next
  case (Inr db)
  show ?thesis
  proof (cases "key_properties self")
    case Nil
    show ?thesis
      using assms unfolding process_batch_plain [OF Inr Nil refl]
      by (simp add: Nil split: prod.splits option.splits)
  next
    case (Cons k ks)
    define l where "l = for_records (generate drv) k (records st) (loop_start st)"
    have summary: "last (logger (snd (process_batch drv self st))) =
        (INFO, Uploaded (length (records st)) (quote (stream_name self)))"
      using assms unfolding process_batch_keyed [OF Inr Cons l_def refl]
      by (simp split: prod.splits sum.splits if_splits)
    have submitted: "calls (snd (process_batch drv self st)) =
        calls st @ (if bulk_operations l = [] then []
                    else [Bulk_write (quote (stream_name self)) (bulk_operations l) False])"
      by (rule keyed_outcome(2) [OF Inr Cons l_def refl])
    have kept: "seen l =
        map (\<lambda>r. if k = ''_id'' \<and> malformed (dict_get r ''_id'' PNone) = None
                   then dict_pop r ''_id'' else r) (records st)"
      by (simp add: l_def seen_for_records loop_start_def)
    have count: "length (records st) = length (bulk_operations l) + length (skip_warnings k (records st))"
      using count_for_records [of "generate drv" k "records st" "loop_start st"]
      by (simp add: l_def loop_start_def)
    show ?thesis
      using summary submitted kept count by (simp add: Cons l_def)
  qed
qed

theorem summary_line_counts_whole_batch_witness:
  "fst (process_batch accepting_driver id_sink
      (batch_of [good_record, bad_record, anonymous_record])) = None
   \<and> key_properties id_sink = ''_id'' # []
   \<and> last (logger (snd (process_batch accepting_driver id_sink
        (batch_of [good_record, bad_record, anonymous_record])))) =
       (INFO, Uploaded (length (records (batch_of [good_record, bad_record, anonymous_record])))
          (quote (stream_name id_sink)))
   \<and> length (records (batch_of [good_record, bad_record, anonymous_record])) =
       length (bulk_operations (for_records (generate accepting_driver) ''_id''
          (records (batch_of [good_record, bad_record, anonymous_record]))
          (loop_start (batch_of [good_record, bad_record, anonymous_record]))))
       + length (skip_warnings ''_id'' (records (batch_of [good_record, bad_record, anonymous_record])))
   \<and> length (records (batch_of [good_record, bad_record, anonymous_record])) = 3
   \<and> length (skip_warnings ''_id'' (records (batch_of [good_record, bad_record, anonymous_record]))) = 1"
proof -
  let ?st = "batch_of [good_record, bad_record, anonymous_record]"
  have returns: "fst (process_batch accepting_driver id_sink ?st) = None"
    by (simp add: example_defs method_defs)
  have key: "key_properties id_sink = ''_id'' # []"
    by (simp add: id_sink_def)
  note claim = summary_line_counts_whole_batch [OF returns]
  from claim have summary: "last (logger (snd (process_batch accepting_driver id_sink ?st))) =
      (INFO, Uploaded (length (records ?st)) (quote (stream_name id_sink)))"
    by (rule conjunct1)
  from claim key have count: "length (records ?st) =
      length (bulk_operations (for_records (generate accepting_driver) ''_id''
        (records ?st) (loop_start ?st)))
      + length (skip_warnings ''_id'' (records ?st))"
    by blast
  have size: "length (records ?st) = 3"
    by (simp add: batch_of_def)
  have skipped: "length (skip_warnings ''_id'' (records ?st)) = 1"
    by (simp add: example_defs malformed_def dict_get_def hex_value_def isspace_def)
  from returns key summary count size skipped show ?thesis
    by (intro conjI)
qed

end
